theory Spec2Isabelle
  imports Main "HOL-Library.Sublist"
begin

section \<open>Python strings\<close>

text \<open>
  A Python \<^verbatim>\<open>str\<close> is a sequence of Unicode code points. The validator reads its file
  with \<^verbatim>\<open>encoding='utf-8'\<close>, so the content it scans is the decoded text: a list of
  code points, not of bytes. String constants of the source are written as Isabelle
  string literals and embedded with \<open>py_str\<close>.
\<close>

type_synonym codepoint = nat
type_synonym str = "codepoint list"

definition py_str :: "string \<Rightarrow> str" where
  "py_str s = map of_char s"

text \<open>
  \<^verbatim>\<open>\s\<close> in a \<^verbatim>\<open>str\<close> pattern is Python's Unicode white space: the ASCII controls
  U+0009..U+000D and U+001C..U+001F, the space, and the Unicode separators below.
\<close>

definition unicode_isspace :: "codepoint \<Rightarrow> bool" where
  "unicode_isspace c \<longleftrightarrow>
     (9 \<le> c \<and> c \<le> 13) \<or> (28 \<le> c \<and> c \<le> 32) \<or> c = 133 \<or> c = 160 \<or> c = 5760 \<or>
     (8192 \<le> c \<and> c \<le> 8202) \<or> c = 8232 \<or> c = 8233 \<or> c = 8239 \<or> c = 8287 \<or>
     c = 12288"

definition ascii_isupper :: "codepoint \<Rightarrow> bool" where
  "ascii_isupper c \<longleftrightarrow> 65 \<le> c \<and> c \<le> 90"

definition ascii_islower :: "codepoint \<Rightarrow> bool" where
  "ascii_islower c \<longleftrightarrow> 97 \<le> c \<and> c \<le> 122"

definition ascii_lower :: "codepoint \<Rightarrow> codepoint" where
  "ascii_lower c = (if ascii_isupper c then c + 32 else c)"

definition ascii_upper :: "codepoint \<Rightarrow> codepoint" where
  "ascii_upper c = (if ascii_islower c then c - 32 else c)"

text \<open>
  A literal of a pattern compiled with \<^verbatim>\<open>re.IGNORECASE\<close>, against one character of the
  subject. The patterns of the validator hold ASCII characters only. An ASCII letter
  matches its two ASCII cases and, by Unicode case folding, four more characters:
  U+0130 and U+0131 for \<open>i\<close>, U+017F for \<open>s\<close>, U+212A for \<open>k\<close>. Any other character of a
  pattern matches itself only.
\<close>

definition ignorecase_eq :: "codepoint \<Rightarrow> codepoint \<Rightarrow> bool" where
  "ignorecase_eq p c \<longleftrightarrow>
     (if ascii_isupper p \<or> ascii_islower p then
        c = ascii_lower p \<or> c = ascii_upper p \<or>
        (ascii_lower p = 105 \<and> (c = 304 \<or> c = 305)) \<or>
        (ascii_lower p = 115 \<and> c = 383) \<or>
        (ascii_lower p = 107 \<and> c = 8490)
      else c = p)"

text \<open>\<^verbatim>\<open>str.replace(old, new)\<close> for one-character \<open>old\<close> and \<open>new\<close>.\<close>

definition replace :: "codepoint \<Rightarrow> codepoint \<Rightarrow> str \<Rightarrow> str" where
  "replace old new s = map (\<lambda>c. if c = old then new else c) s"

text \<open>
  \<^verbatim>\<open>str.title()\<close>: a cased character is upper-cased after an uncased one (or at the
  start) and lower-cased after a cased one. The validator applies it to its six section
  names only, which are ASCII; the model cases ASCII letters and leaves every other
  character as it is.
\<close>

fun title_from :: "bool \<Rightarrow> str \<Rightarrow> str" where
  "title_from previous_is_cased [] = []"
| "title_from previous_is_cased (c # cs) =
     (if previous_is_cased then ascii_lower c else ascii_upper c) #
     title_from (ascii_isupper c \<or> ascii_islower c) cs"

definition title :: "str \<Rightarrow> str" where
  "title s = title_from False s"

section \<open>Regular expressions of the validator\<close>

text \<open>
  Every pattern of the source is a sequence of literal characters and \<^verbatim>\<open>\s+\<close>.
  \<open>re_search\<close> is \<^verbatim>\<open>re.search(pattern, text, re.IGNORECASE)\<close> read as a truth value:
  it tries every start position, and at each one \<open>re_match_at\<close> matches the pattern as
  the backtracking engine does, \<^verbatim>\<open>\s+\<close> taking as much white space as it can first.
\<close>

datatype re_op = LITERAL codepoint | SPACE_PLUS

type_synonym regex = "re_op list"

definition lits :: "string \<Rightarrow> regex" where
  "lits s = map (\<lambda>c. LITERAL (of_char c)) s"

fun re_match_at :: "regex \<Rightarrow> str \<Rightarrow> bool" where
  "re_match_at [] s = True"
| "re_match_at (LITERAL p # r) [] = False"
| "re_match_at (LITERAL p # r) (c # s) = (ignorecase_eq p c \<and> re_match_at r s)"
| "re_match_at (SPACE_PLUS # r) [] = False"
| "re_match_at (SPACE_PLUS # r) (c # s) =
     (unicode_isspace c \<and> (re_match_at (SPACE_PLUS # r) s \<or> re_match_at r s))"

fun re_search :: "regex \<Rightarrow> str \<Rightarrow> bool" where
  "re_search pat [] = re_match_at pat []"
| "re_search pat (c # s) = (re_match_at pat (c # s) \<or> re_search pat s)"

text \<open>
  What a pattern denotes, independently of the engine: the strings that are an instance
  of it from the first to the last character.
\<close>

inductive re_fullmatch :: "regex \<Rightarrow> str \<Rightarrow> bool" where
  fm_empty: "re_fullmatch [] []"
| fm_literal: "ignorecase_eq p c \<Longrightarrow> re_fullmatch r s \<Longrightarrow> re_fullmatch (LITERAL p # r) (c # s)"
| fm_spaces: "ws \<noteq> [] \<Longrightarrow> list_all unicode_isspace ws \<Longrightarrow> re_fullmatch r s \<Longrightarrow>
     re_fullmatch (SPACE_PLUS # r) (ws @ s)"

section \<open>The validator\<close>

text \<open>
  The outside world of one run. \<open>Path_str\<close> and \<open>Path_name\<close> give \<^verbatim>\<open>str(Path(arg))\<close> and
  \<^verbatim>\<open>Path(arg).name\<close> for a command-line argument; \<open>open_read\<close> is what opening the path
  for reading as UTF-8 text and reading it whole gives: the decoded content (in text
  mode, so with line ends already translated),
  \<^verbatim>\<open>FileNotFoundError\<close>, or another exception with its message \<^verbatim>\<open>str(e)\<close>.
  \<open>stdout_accepts\<close> tells whether \<^verbatim>\<open>print\<close> of a string returns normally: it does not when
  the encoding of standard output cannot encode a character of the string (the
  non-ASCII literals of the report on an ASCII terminal, a file name that is not valid
  UTF-8), and then \<^verbatim>\<open>print\<close> raises \<^verbatim>\<open>UnicodeEncodeError\<close>.
\<close>

datatype read_outcome = Contents str | FileNotFoundError | OtherException str

record world =
  Path_str :: "str \<Rightarrow> str"
  Path_name :: "str \<Rightarrow> str"
  open_read :: "str \<Rightarrow> read_outcome"
  stdout_accepts :: "str \<Rightarrow> bool"

text \<open>
  \<^verbatim>\<open>REQUIRED_SECTIONS\<close>: a dictionary literal, iterated in the order it is written.
  The patterns are \<^verbatim>\<open>##\s+Context\<close>, \<^verbatim>\<open>##\s+Task\<close>, \<^verbatim>\<open>##\s+Requirements\<close>,
  \<^verbatim>\<open>##\s+Validation\<close>, \<^verbatim>\<open>##\s+Output\s+Format\<close> and \<^verbatim>\<open>##\s+Security\<close>.
\<close>

definition REQUIRED_SECTIONS :: "(str \<times> regex) list" where
  "REQUIRED_SECTIONS =
    [(py_str ''context'', lits ''##'' @ [SPACE_PLUS] @ lits ''Context''),
     (py_str ''task'', lits ''##'' @ [SPACE_PLUS] @ lits ''Task''),
     (py_str ''requirements'', lits ''##'' @ [SPACE_PLUS] @ lits ''Requirements''),
     (py_str ''validation'', lits ''##'' @ [SPACE_PLUS] @ lits ''Validation''),
     (py_str ''output_format'',
        lits ''##'' @ [SPACE_PLUS] @ lits ''Output'' @ [SPACE_PLUS] @ lits ''Format''),
     (py_str ''security'', lits ''##'' @ [SPACE_PLUS] @ lits ''Security'')]"

text \<open>
  The object a \<^verbatim>\<open>PromptValidator\<close> is. \<open>filepath\<close> holds the argument the \<^verbatim>\<open>Path\<close> was
  made from; its string and its name are read through the \<open>world\<close>.
\<close>

record validator =
  filepath :: str
  content :: str
  errors :: "str list"
  warnings :: "str list"

definition init :: "str \<Rightarrow> validator" where
  "init fp = \<lparr>filepath = fp, content = [], errors = [], warnings = []\<rparr>"

definition load_file :: "world \<Rightarrow> validator \<Rightarrow> bool \<times> validator" where
  "load_file w v =
     (case open_read w (filepath v) of
        Contents text \<Rightarrow> (True, v\<lparr>content := text\<rparr>)
      | FileNotFoundError \<Rightarrow>
          (False, v\<lparr>errors := errors v @ [py_str ''File not found: '' @ Path_str w (filepath v)]\<rparr>)
      | OtherException e \<Rightarrow>
          (False, v\<lparr>errors := errors v @ [py_str ''Error reading file: '' @ e]\<rparr>))"

definition missing_section_message :: "str \<Rightarrow> str" where
  "missing_section_message section_name =
     py_str ''Missing required section: '' @ title (replace 95 32 section_name)"

fun check_sections_loop :: "(str \<times> regex) list \<Rightarrow> validator \<Rightarrow> validator" where
  "check_sections_loop [] v = v"
| "check_sections_loop ((section_name, pattern) # rest) v =
     check_sections_loop rest
       (if \<not> re_search pattern (content v)
        then v\<lparr>errors := errors v @ [missing_section_message section_name]\<rparr>
        else v)"

definition check_required_sections :: "validator \<Rightarrow> validator" where
  "check_required_sections v = check_sections_loop REQUIRED_SECTIONS v"

text \<open>
  The patterns are \<^verbatim>\<open>build\s+me\s+a\<close>, \<^verbatim>\<open>create\s+a\s+simple\<close>, \<^verbatim>\<open>make\s+it\s+work\<close>
  and \<^verbatim>\<open>fix\s+this\<close>.
\<close>

definition generic_phrases :: "regex list" where
  "generic_phrases =
    [lits ''build'' @ [SPACE_PLUS] @ lits ''me'' @ [SPACE_PLUS] @ lits ''a'',
     lits ''create'' @ [SPACE_PLUS] @ lits ''a'' @ [SPACE_PLUS] @ lits ''simple'',
     lits ''make'' @ [SPACE_PLUS] @ lits ''it'' @ [SPACE_PLUS] @ lits ''work'',
     lits ''fix'' @ [SPACE_PLUS] @ lits ''this'']"

definition generic_phrase_warning :: str where
  "generic_phrase_warning = py_str ''Generic phrase detected - ensure specificity (Rule 1)''"

fun check_phrases_loop :: "regex list \<Rightarrow> validator \<Rightarrow> validator" where
  "check_phrases_loop [] v = v"
| "check_phrases_loop (phrase # rest) v =
     check_phrases_loop rest
       (if re_search phrase (content v)
        then v\<lparr>warnings := warnings v @ [generic_phrase_warning]\<rparr>
        else v)"

definition check_specificity :: "validator \<Rightarrow> validator" where
  "check_specificity v = check_phrases_loop generic_phrases v"

text \<open>The fence marker is three grave accents (U+0060).\<close>

definition code_fence :: str where
  "code_fence = [96, 96, 96]"

definition no_examples_warning :: str where
  "no_examples_warning = py_str ''No code examples found - consider adding examples (Rule 9)''"

definition check_examples :: "validator \<Rightarrow> validator" where
  "check_examples v =
     (if \<not> sublist code_fence (content v)
      then v\<lparr>warnings := warnings v @ [no_examples_warning]\<rparr>
      else v)"

definition validate :: "world \<Rightarrow> validator \<Rightarrow> bool \<times> validator" where
  "validate w v =
     (let (loaded, v1) = load_file w v in
      if \<not> loaded then (False, v1)
      else
        let v2 = check_required_sections v1;
            v3 = check_specificity v2;
            v4 = check_examples v3
        in (length (errors v4) = 0, v4))"

text \<open>
  Standard output is the list of the strings printed, one per call of \<^verbatim>\<open>print\<close> that
  returned (each is followed by a newline on the terminal). A \<^verbatim>\<open>print\<close> gives the new
  output and whether it returned normally; when it raised, nothing catches the
  exception and the run ends there. The literals are those of the source file, whose
  non-ASCII characters are given by their code points.
\<close>

definition print :: "world \<Rightarrow> str \<Rightarrow> str list \<Rightarrow> str list \<times> bool" where
  "print w s out = (if stdout_accepts w s then (out @ [s], True) else (out, False))"

fun print_each :: "world \<Rightarrow> str list \<Rightarrow> str list \<Rightarrow> str list \<times> bool" where
  "print_each w [] out = (out, True)"
| "print_each w (s # rest) out =
     (let (out, printed) = print w s out in
      if \<not> printed then (out, False) else print_each w rest out)"

definition banner :: str where
  "banner = replicate 60 61"

text \<open>
  \<open>print_report\<close> returns the output and the value returned, or \<open>None\<close> when one of its
  calls of \<^verbatim>\<open>print\<close> raised.
\<close>

definition print_report :: "world \<Rightarrow> validator \<Rightarrow> str list \<Rightarrow> str list \<times> bool option" where
  "print_report w v out =
     (let (out, printed) =
        print_each w
          [[10] @ banner, py_str ''Validating: '' @ Path_name w (filepath v), banner @ [10]]
          out
      in
      if \<not> printed then (out, None)
      else if errors v = [] \<and> warnings v = [] then
        (let (out, printed) = print w ([8218, 250, 214] @ py_str '' All checks passed!'') out
         in (out, if printed then Some True else None))
      else
        (let (out, printed) =
           (if errors v \<noteq> [] then
              print_each w
                ([[8218, 249, 229] @ py_str '' ERRORS:''] @
                 map (\<lambda>error. py_str ''  - '' @ error) (errors v) @ [[]])
                out
            else (out, True))
         in
         if \<not> printed then (out, None)
         else
           (let (out, printed) =
              (if warnings v \<noteq> [] then
                 print_each w
                   ([[8218, 246, 8224, 212, 8719, 232] @ py_str ''  WARNINGS:''] @
                    map (\<lambda>warning. py_str ''  - '' @ warning) (warnings v) @ [[]])
                   out
               else (out, True))
            in
            if \<not> printed then (out, None) else (out, Some (length (errors v) = 0)))))"

section \<open>The entry point\<close>

text \<open>
  \<open>main w argv\<close> is one run of the program with \<^verbatim>\<open>sys.argv = argv\<close>: what it prints, and
  the exit status of the process. \<^verbatim>\<open>sys.exit(n)\<close> ends it with status \<open>n\<close>; an exception
  that nothing catches, here the one a failed \<^verbatim>\<open>print\<close> raises, ends it with status 1.
\<close>

definition usage_lines :: "str list" where
  "usage_lines =
    [py_str ''Usage: python tools/prompt-validator.py <prompt-file>'',
     py_str ''Example: python tools/prompt-validator.py prompts/templates/backend-starter.md'']"

definition see_rules_line :: str where
  "see_rules_line =
     [10, 63743, 252, 236, 241] @
     py_str '' See Rules 1-10 in README.md for prompt engineering guidelines''"

definition main :: "world \<Rightarrow> str list \<Rightarrow> str list \<times> nat" where
  "main w argv =
     (if length argv < 2 then (fst (print_each w usage_lines []), 1)
      else
        let filepath = argv ! 1;
            validator = init filepath;
            (valid, validator) = validate w validator;
            (out, returned) = print_report w validator []
        in
        case returned of
          None \<Rightarrow> (out, 1)
        | Some success \<Rightarrow>
            if \<not> success then (fst (print w see_rules_line out), 1) else (out, 0))"

section \<open>Vocabulary of the properties\<close>

text \<open>
  A document contains a pattern when some contiguous part of it is an instance of the
  pattern. A part of a document is a heading or a phrase in any case when lower-casing
  its ASCII letters gives the lower-case text.
\<close>

definition contains_match :: "regex \<Rightarrow> str \<Rightarrow> bool" where
  "contains_match pat doc \<longleftrightarrow> (\<exists>m. sublist m doc \<and> re_fullmatch pat m)"

definition contains_ignorecase :: "str \<Rightarrow> str \<Rightarrow> bool" where
  "contains_ignorecase phrase doc \<longleftrightarrow>
     (\<exists>m. sublist m doc \<and> map ascii_lower m = map ascii_lower phrase)"

definition missing_sections :: "str \<Rightarrow> str list" where
  "missing_sections doc =
     map fst (filter (\<lambda>(section_name, pattern). \<not> contains_match pattern doc) REQUIRED_SECTIONS)"

text \<open>
  The strings the report of a validator consists of, in the order in which
  \<open>print_report\<close> prints them when every \<^verbatim>\<open>print\<close> returns.
\<close>

definition report_lines :: "world \<Rightarrow> validator \<Rightarrow> str list" where
  "report_lines w v =
     [[10] @ banner, py_str ''Validating: '' @ Path_name w (filepath v), banner @ [10]] @
     (if errors v = [] \<and> warnings v = [] then
        [[8218, 250, 214] @ py_str '' All checks passed!'']
      else
        (if errors v \<noteq> [] then
           [[8218, 249, 229] @ py_str '' ERRORS:''] @
           map (\<lambda>error. py_str ''  - '' @ error) (errors v) @ [[]]
         else []) @
        (if warnings v \<noteq> [] then
           [[8218, 246, 8224, 212, 8719, 232] @ py_str ''  WARNINGS:''] @
           map (\<lambda>warning. py_str ''  - '' @ warning) (warnings v) @ [[]]
         else []))"

section \<open>Example files\<close>

definition good_doc :: str where
  "good_doc =
     py_str ''## task'' @ [10] @ py_str ''##  Context'' @ [10] @ py_str ''Service X.'' @ [10] @
     py_str ''## REQUIREMENTS'' @ [10] @ py_str ''## Validation'' @ [10] @
     py_str ''## Output'' @ [9] @ py_str ''Format'' @ [10] @ code_fence @ py_str ''{}'' @ code_fence @ [10] @
     py_str ''## Security'' @ [10]"

definition context_only_doc :: str where
  "context_only_doc = py_str ''## Context'' @ [10] @ py_str ''hello''"

definition build_doc :: str where
  "build_doc = py_str ''BUILD Me a parser.'' @ [10] @ good_doc"

definition nested_doc :: str where
  "nested_doc =
     code_fence @ [10] @ py_str ''see ### conTEXT here'' @ [10] @ code_fence"

definition example_world :: world where
  "example_world =
     \<lparr>Path_str = (\<lambda>p. p), Path_name = (\<lambda>p. p),
      open_read = (\<lambda>p.
        if p = py_str ''good.md'' then Contents good_doc
        else if p = py_str ''context.md'' then Contents context_only_doc
        else if p = py_str ''build.md'' then Contents build_doc
        else if p = py_str ''nested.md'' then Contents nested_doc
        else if p = py_str ''locked.md'' then OtherException (py_str ''Permission denied'')
        else FileNotFoundError),
      stdout_accepts = (\<lambda>s. True)\<rparr>"

text \<open>
  The same files at a later time: \<open>good.md\<close> has been deleted, the others are unmodified.
\<close>

definition example_world_later :: world where
  "example_world_later =
     example_world\<lparr>open_read := (open_read example_world)(py_str ''good.md'' := FileNotFoundError)\<rparr>"


section \<open>The loops\<close>

lemma check_sections_loop_eq:
  "check_sections_loop ps v =
     v\<lparr>errors := errors v @ map (missing_section_message \<circ> fst)
        (filter (\<lambda>(n, pat). \<not> re_search pat (content v)) ps)\<rparr>"
  by (induction ps arbitrary: v) (auto split: prod.splits)

lemma check_phrases_loop_eq:
  "check_phrases_loop ps v =
     v\<lparr>warnings := warnings v @
        replicate (length (filter (\<lambda>ph. re_search ph (content v)) ps)) generic_phrase_warning\<rparr>"
  by (induction ps arbitrary: v) (auto simp: replicate_append_same)

section \<open>The engine finds exactly the instances of a pattern\<close>

lemma re_match_at_spaces:
  "ws \<noteq> [] \<Longrightarrow> list_all unicode_isspace ws \<Longrightarrow> re_match_at r s \<Longrightarrow>
     re_match_at (SPACE_PLUS # r) (ws @ s)"
proof (induction ws)
  case Nil
  then show ?case by simp
next
  case (Cons c ws)
  then show ?case by (cases ws) auto
qed

lemma re_fullmatch_match_at:
  "re_fullmatch pat m \<Longrightarrow> re_match_at pat (m @ rest)"
  by (induction pat m rule: re_fullmatch.induct) (auto intro: re_match_at_spaces)

lemma re_match_at_fullmatch:
  "re_match_at pat s \<Longrightarrow> \<exists>m rest. s = m @ rest \<and> re_fullmatch pat m"
proof (induction pat s rule: re_match_at.induct)
  case (1 s)
  show ?case using fm_empty by fastforce
next
  case (3 p r c s)
  then obtain m rest where "s = m @ rest" "re_fullmatch r m" by auto
  with 3 have "c # s = (c # m) @ rest \<and> re_fullmatch (LITERAL p # r) (c # m)"
    by (auto intro: fm_literal)
  then show ?case by blast
next
  case (5 r c s)
  from 5(3) have sp: "unicode_isspace c" by simp
  from 5(3) consider "re_match_at (SPACE_PLUS # r) s" | "re_match_at r s" by auto
  then show ?case
  proof cases
    case 1
    with 5 obtain m rest where m: "s = m @ rest" "re_fullmatch (SPACE_PLUS # r) m" by auto
    from m(2) obtain ws t where "m = ws @ t" "ws \<noteq> []" "list_all unicode_isspace ws" "re_fullmatch r t"
      by (auto elim: re_fullmatch.cases)
    with sp have "re_fullmatch (SPACE_PLUS # r) ((c # ws) @ t)"
      by (intro fm_spaces) auto
    with m \<open>m = ws @ t\<close> show ?thesis by (intro exI [of _ "c # m"] exI [of _ rest]) simp
  next
    case 2
    with 5 obtain m rest where m: "s = m @ rest" "re_fullmatch r m" by auto
    with sp have "re_fullmatch (SPACE_PLUS # r) ([c] @ m)"
      by (intro fm_spaces) auto
    with m show ?thesis by (intro exI [of _ "c # m"] exI [of _ rest]) simp
  qed
qed simp_all

lemma re_match_at_iff:
  "re_match_at pat s \<longleftrightarrow> (\<exists>m rest. s = m @ rest \<and> re_fullmatch pat m)"
  using re_match_at_fullmatch re_fullmatch_match_at by blast

lemma re_search_iff:
  "re_search pat s \<longleftrightarrow> (\<exists>m. sublist m s \<and> re_fullmatch pat m)"
proof (induction s)
  case Nil
  show ?case by (auto simp: re_match_at_iff)
next
  case (Cons c s)
  show ?case
  proof
    assume "re_search pat (c # s)"
    then consider "re_match_at pat (c # s)" | "re_search pat s" by auto
    then show "\<exists>m. sublist m (c # s) \<and> re_fullmatch pat m"
    proof cases
      case 1
      then obtain m rest where "c # s = m @ rest" "re_fullmatch pat m"
        using re_match_at_iff by blast
      then show ?thesis by (metis prefix_imp_sublist prefixI)
    next
      case 2
      with Cons obtain m where "sublist m s" "re_fullmatch pat m" by blast
      then show ?thesis by (meson sublist_Cons_right)
    qed
  next
    assume "\<exists>m. sublist m (c # s) \<and> re_fullmatch pat m"
    then obtain m where m: "sublist m (c # s)" "re_fullmatch pat m" by blast
    from m(1) consider "prefix m (c # s)" | "sublist m s"
      by (auto simp: sublist_Cons_right)
    then show "re_search pat (c # s)"
    proof cases
      case 1
      then obtain rest where "c # s = m @ rest" by (auto simp: prefix_def)
      with m(2) have "re_match_at pat (c # s)" by (metis re_fullmatch_match_at)
      then show ?thesis by simp
    next
      case 2
      with m(2) Cons show ?thesis by auto
    qed
  qed
qed

lemma contains_match_code: "contains_match pat doc = re_search pat doc"
  by (simp add: contains_match_def re_search_iff)

section \<open>What validate computes\<close>

lemma section_errors_eq:
  "map (missing_section_message \<circ> fst)
     (filter (\<lambda>(n, pat). \<not> re_search pat doc) REQUIRED_SECTIONS) =
   map missing_section_message (missing_sections doc)"
  by (simp add: missing_sections_def contains_match_code)

lemma validate_loaded:
  assumes "open_read w (filepath v) = Contents doc"
  shows "validate w v =
     (errors v = [] \<and> missing_sections doc = [],
      v\<lparr>content := doc,
        errors := errors v @ map missing_section_message (missing_sections doc),
        warnings := warnings v @
          replicate (length (filter (\<lambda>ph. contains_match ph doc) generic_phrases))
            generic_phrase_warning @
          (if sublist code_fence doc then [] else [no_examples_warning])\<rparr>)"
  using assms
  by (simp add: validate_def load_file_def check_required_sections_def check_specificity_def
      check_examples_def check_sections_loop_eq check_phrases_loop_eq section_errors_eq
      contains_match_code)

section \<open>Evaluating the examples\<close>

lemma re_match_at_LITERAL_if:
  "re_match_at (LITERAL p # r) (c # s) = (if ignorecase_eq p c then re_match_at r s else False)"
  by simp

lemma re_match_at_SPACE_if:
  "re_match_at (SPACE_PLUS # r) (c # s) =
     (if unicode_isspace c
      then (if re_match_at (SPACE_PLUS # r) s then True else re_match_at r s)
      else False)"
  by simp

lemma re_search_if:
  "re_search pat (c # s) = (if re_match_at pat (c # s) then True else re_search pat s)"
  by simp

declare re_match_at.simps(3,5) [simp del] re_search.simps(2) [simp del]

lemmas char_defs =
  py_str_def lits_def ignorecase_eq_def ascii_isupper_def ascii_islower_def ascii_lower_def
  ascii_upper_def unicode_isspace_def

lemmas re_eval =
  contains_match_code re_match_at_LITERAL_if re_match_at_SPACE_if re_search_if
  REQUIRED_SECTIONS_def generic_phrases_def code_fence_def char_defs

lemma section_messages:
  "map missing_section_message (map fst REQUIRED_SECTIONS) =
     [py_str ''Missing required section: Context'',
      py_str ''Missing required section: Task'',
      py_str ''Missing required section: Requirements'',
      py_str ''Missing required section: Validation'',
      py_str ''Missing required section: Output Format'',
      py_str ''Missing required section: Security'']"
  by (simp add: REQUIRED_SECTIONS_def missing_section_message_def title_def replace_def char_defs)

lemma distinct_section_messages:
  "distinct (map missing_section_message (map fst REQUIRED_SECTIONS))"
  unfolding section_messages by (simp add: py_str_def)

lemma good_doc_missing: "missing_sections good_doc = []"
  by (simp add: missing_sections_def good_doc_def re_eval)

lemma good_doc_phrases: "filter (\<lambda>ph. contains_match ph good_doc) generic_phrases = []"
  by (simp add: good_doc_def re_eval)

lemma good_doc_fence: "sublist code_fence good_doc"
  by (simp add: good_doc_def code_fence_def py_str_def sublist_code)

lemma open_read_good: "open_read example_world (py_str ''good.md'') = Contents good_doc"
  by (simp add: example_world_def py_str_def)

section \<open>Properties of validate\<close>

text \<open>
  C1. A document that contains all six required section headings (in any case and any
  order), none of the four generic phrases and at least one code fence is valid:
  \<open>validate\<close> returns true, and it leaves the error list (and the warning list) empty.
\<close>

theorem compliant_document_is_valid:
  assumes "open_read w p = Contents doc"
    and "\<forall>(section_name, pattern) \<in> set REQUIRED_SECTIONS. contains_match pattern doc"
    and "\<forall>phrase \<in> set generic_phrases. \<not> contains_match phrase doc"
    and "sublist code_fence doc"
  shows "validate w (init p) =
     (True, \<lparr>filepath = p, content = doc, errors = [], warnings = []\<rparr>)"
proof -
  from assms(2) have "missing_sections doc = []"
    by (auto simp: missing_sections_def filter_empty_conv)
  moreover from assms(3) have "filter (\<lambda>ph. contains_match ph doc) generic_phrases = []"
    by (simp add: filter_empty_conv)
  ultimately show ?thesis
    using validate_loaded [of w "init p" doc] assms(1,4) by (simp add: init_def)
qed

theorem compliant_document_is_valid_witness:
  "open_read example_world (py_str ''good.md'') = Contents good_doc \<and>
   sublist code_fence good_doc \<and>
   validate example_world (init (py_str ''good.md'')) =
     (True, \<lparr>filepath = py_str ''good.md'', content = good_doc, errors = [], warnings = []\<rparr>)"
proof -
  have "\<forall>(section_name, pattern) \<in> set REQUIRED_SECTIONS. contains_match pattern good_doc"
    using good_doc_missing by (auto simp: missing_sections_def filter_empty_conv)
  moreover have "\<forall>phrase \<in> set generic_phrases. \<not> contains_match phrase good_doc"
    using good_doc_phrases by (simp add: filter_empty_conv)
  ultimately show ?thesis
    using compliant_document_is_valid [OF open_read_good _ _ good_doc_fence]
      open_read_good good_doc_fence by blast
qed

lemma open_read_context:
  "open_read example_world (py_str ''context.md'') = Contents context_only_doc"
  by (simp add: example_world_def py_str_def)

lemma context_only_doc_missing:
  "missing_sections context_only_doc =
     [py_str ''task'', py_str ''requirements'', py_str ''validation'',
      py_str ''output_format'', py_str ''security'']"
  by (simp add: missing_sections_def context_only_doc_def re_eval)

lemma context_only_doc_phrases:
  "filter (\<lambda>ph. contains_match ph context_only_doc) generic_phrases = []"
  by (simp add: context_only_doc_def re_eval)

lemma context_only_doc_fence: "\<not> sublist code_fence context_only_doc"
  by (simp add: context_only_doc_def code_fence_def py_str_def sublist_code)

lemma warnings_differ: "no_examples_warning \<noteq> generic_phrase_warning"
  by (simp add: no_examples_warning_def generic_phrase_warning_def py_str_def)

text \<open>
  C2. For a document that was loaded, the error list after \<open>validate\<close> holds exactly one
  error for each required section whose heading the document does not contain, in the
  order of the table, and nothing else; the message names the section with underscores
  replaced by spaces and in title case; and \<open>validate\<close> returns false exactly when some
  section is missing.
\<close>

theorem missing_sections_reported:
  assumes "open_read w p = Contents doc"
  shows "errors (snd (validate w (init p))) = map missing_section_message (missing_sections doc) \<and>
    distinct (errors (snd (validate w (init p)))) \<and>
    length (errors (snd (validate w (init p)))) = length (missing_sections doc) \<and>
    (fst (validate w (init p)) \<longleftrightarrow> missing_sections doc = []) \<and>
    map missing_section_message (map fst REQUIRED_SECTIONS) =
      [py_str ''Missing required section: Context'',
       py_str ''Missing required section: Task'',
       py_str ''Missing required section: Requirements'',
       py_str ''Missing required section: Validation'',
       py_str ''Missing required section: Output Format'',
       py_str ''Missing required section: Security'']"
proof -
  have v: "validate w (init p) =
     (missing_sections doc = [],
      \<lparr>filepath = p, content = doc,
        errors = map missing_section_message (missing_sections doc),
        warnings =
          replicate (length (filter (\<lambda>ph. contains_match ph doc) generic_phrases))
            generic_phrase_warning @
          (if sublist code_fence doc then [] else [no_examples_warning])\<rparr>)"
    using validate_loaded [of w "init p" doc] assms by (simp add: init_def)
  have "distinct (map missing_section_message (missing_sections doc))"
    unfolding missing_sections_def map_map [symmetric]
    using distinct_section_messages
    by (simp only: map_map distinct_map_filter)
  with v section_messages show ?thesis by simp
qed

theorem missing_sections_reported_witness:
  "open_read example_world (py_str ''context.md'') = Contents context_only_doc \<and>
   validate example_world (init (py_str ''context.md'')) =
     (False,
      \<lparr>filepath = py_str ''context.md'', content = context_only_doc,
        errors =
          [py_str ''Missing required section: Task'',
           py_str ''Missing required section: Requirements'',
           py_str ''Missing required section: Validation'',
           py_str ''Missing required section: Output Format'',
           py_str ''Missing required section: Security''],
        warnings = [no_examples_warning]\<rparr>)"
proof -
  let ?r = "validate example_world (init (py_str ''context.md''))"
  from missing_sections_reported [OF open_read_context]
  have "errors (snd ?r) = map missing_section_message (missing_sections context_only_doc)"
    and "fst ?r \<longleftrightarrow> missing_sections context_only_doc = []"
    by blast+
  moreover have "filepath (snd ?r) = py_str ''context.md'' \<and> content (snd ?r) = context_only_doc \<and>
      warnings (snd ?r) = [no_examples_warning]"
    using validate_loaded [of example_world "init (py_str ''context.md'')" context_only_doc]
    by (simp add: init_def open_read_context context_only_doc_phrases context_only_doc_fence)
  ultimately have "?r =
     (False,
      \<lparr>filepath = py_str ''context.md'', content = context_only_doc,
        errors = map missing_section_message (missing_sections context_only_doc),
        warnings = [no_examples_warning]\<rparr>)"
    by (cases ?r) (simp add: context_only_doc_missing)
  then show ?thesis
    using open_read_context
    by (simp add: context_only_doc_missing missing_section_message_def title_def replace_def
        char_defs)
qed


lemma open_read_locked:
  "open_read example_world (py_str ''locked.md'') = OtherException (py_str ''Permission denied'')"
  by (simp add: example_world_def py_str_def)

lemma open_read_absent:
  "open_read example_world (py_str ''absent.md'') = FileNotFoundError"
  by (simp add: example_world_def py_str_def)

text \<open>
  C4. When the load fails, \<open>validate\<close> appends exactly one error, runs none of the three
  checks (the content and the warning list stay empty) and returns false. For a path that
  does not exist the error is the "File not found" message with the path; for any other
  failure it is the "Error reading file" message with the text of the exception.
\<close>

theorem load_failure_short_circuits:
  "(open_read w p = FileNotFoundError \<longrightarrow>
      validate w (init p) =
        (False,
         \<lparr>filepath = p, content = [],
           errors = [py_str ''File not found: '' @ Path_str w p], warnings = []\<rparr>)) \<and>
   (open_read w p = OtherException e \<longrightarrow>
      validate w (init p) =
        (False,
         \<lparr>filepath = p, content = [],
           errors = [py_str ''Error reading file: '' @ e], warnings = []\<rparr>))"
  by (simp add: validate_def load_file_def init_def)

theorem load_failure_short_circuits_witness:
  "open_read example_world (py_str ''absent.md'') = FileNotFoundError \<and>
   validate example_world (init (py_str ''absent.md'')) =
     (False,
      \<lparr>filepath = py_str ''absent.md'', content = [],
        errors = [py_str ''File not found: absent.md''], warnings = []\<rparr>) \<and>
   open_read example_world (py_str ''locked.md'') = OtherException (py_str ''Permission denied'') \<and>
   validate example_world (init (py_str ''locked.md'')) =
     (False,
      \<lparr>filepath = py_str ''locked.md'', content = [],
        errors = [py_str ''Error reading file: Permission denied''], warnings = []\<rparr>)"
proof -
  have "Path_str example_world (py_str ''absent.md'') = py_str ''absent.md''"
    by (simp add: example_world_def)
  then show ?thesis
    using load_failure_short_circuits [of example_world "py_str ''absent.md''"]
      load_failure_short_circuits [of example_world "py_str ''locked.md''" "py_str ''Permission denied''"]
      open_read_absent open_read_locked
    by (simp add: py_str_def)
qed

text \<open>
  C6. For a document that was loaded, the warning list after \<open>validate\<close> holds the
  missing-examples warning if and only if the document contains no code fence marker.
\<close>

theorem examples_warning_iff_no_fence:
  assumes "open_read w p = Contents doc"
  shows "no_examples_warning \<in> set (warnings (snd (validate w (init p)))) \<longleftrightarrow>
    \<not> sublist code_fence doc"
  using validate_loaded [of w "init p" doc] assms warnings_differ
  by (simp add: init_def)

theorem examples_warning_iff_no_fence_witness:
  "open_read example_world (py_str ''context.md'') = Contents context_only_doc \<and>
   \<not> sublist code_fence context_only_doc \<and>
   no_examples_warning \<in> set (warnings (snd (validate example_world (init (py_str ''context.md''))))) \<and>
   open_read example_world (py_str ''good.md'') = Contents good_doc \<and>
   sublist code_fence good_doc \<and>
   no_examples_warning \<notin> set (warnings (snd (validate example_world (init (py_str ''good.md'')))))"
  using examples_warning_iff_no_fence [OF open_read_context]
    examples_warning_iff_no_fence [OF open_read_good]
    open_read_context open_read_good context_only_doc_fence good_doc_fence
  by simp

lemma ascii_lower_ignorecase: "ascii_lower c = p \<Longrightarrow> ignorecase_eq p c"
  by (auto simp: ignorecase_eq_def ascii_lower_def ascii_upper_def ascii_isupper_def
      ascii_islower_def split: if_splits)

lemma ascii_lower_space: "ascii_lower c = 32 \<Longrightarrow> unicode_isspace c"
  by (auto simp: ascii_lower_def ascii_isupper_def unicode_isspace_def split: if_splits)

lemma fm_space1:
  "unicode_isspace c \<Longrightarrow> re_fullmatch r s \<Longrightarrow> re_fullmatch (SPACE_PLUS # r) (c # s)"
  using fm_spaces [of "[c]" r s] by simp

lemma build_me_a_lower:
  "map ascii_lower (py_str ''Build me a'') = [98, 117, 105, 108, 100, 32, 109, 101, 32, 97]"
  by (simp add: char_defs)

lemma build_me_a_instance:
  assumes "map ascii_lower m = map ascii_lower (py_str ''Build me a'')"
  shows "re_fullmatch (hd generic_phrases) m"
proof -
  from assms obtain c1 c2 c3 c4 c5 c6 c7 c8 c9 c10 where m: "m = [c1, c2, c3, c4, c5, c6, c7, c8, c9, c10]"
    and c: "ascii_lower c1 = 98" "ascii_lower c2 = 117" "ascii_lower c3 = 105"
      "ascii_lower c4 = 108" "ascii_lower c5 = 100" "ascii_lower c6 = 32"
      "ascii_lower c7 = 109" "ascii_lower c8 = 101" "ascii_lower c9 = 32"
      "ascii_lower c10 = 97"
    unfolding build_me_a_lower by (auto simp: map_eq_Cons_conv)
  have "hd generic_phrases =
      [LITERAL 98, LITERAL 117, LITERAL 105, LITERAL 108, LITERAL 100, SPACE_PLUS,
       LITERAL 109, LITERAL 101, SPACE_PLUS, LITERAL 97]"
    by (simp add: generic_phrases_def lits_def)
  then show ?thesis
    unfolding m
    by (simp only:) (intro fm_literal fm_space1 fm_empty ascii_lower_ignorecase ascii_lower_space c)
qed

lemma validity_is_no_errors:
  "fst (validate w v) \<longleftrightarrow> errors (snd (validate w v)) = []"
proof (cases "open_read w (filepath v)")
  case (Contents doc)
  then show ?thesis using validate_loaded [of w v doc] by simp
qed (simp_all add: validate_def load_file_def)

text \<open>
  C5. \<open>validate\<close> returns true if and only if the error list is empty after it ran;
  warnings do not count. In particular a document with all six headings that contains
  "Build me a" in any case is valid, and its warning list is not empty.
\<close>

theorem valid_iff_no_errors:
  "(fst (validate w v) \<longleftrightarrow> errors (snd (validate w v)) = []) \<and>
   (open_read w p = Contents doc \<longrightarrow>
    (\<forall>(section_name, pattern) \<in> set REQUIRED_SECTIONS. contains_match pattern doc) \<longrightarrow>
    contains_ignorecase (py_str ''Build me a'') doc \<longrightarrow>
    fst (validate w (init p)) \<and> warnings (snd (validate w (init p))) \<noteq> [])"
proof (intro conjI impI)
  show "fst (validate w v) \<longleftrightarrow> errors (snd (validate w v)) = []"
    by (rule validity_is_no_errors)
next
  assume read: "open_read w p = Contents doc"
    and sections: "\<forall>(section_name, pattern) \<in> set REQUIRED_SECTIONS. contains_match pattern doc"
    and build: "contains_ignorecase (py_str ''Build me a'') doc"
  from sections have none: "missing_sections doc = []"
    by (auto simp: missing_sections_def filter_empty_conv)
  from build have "contains_match (hd generic_phrases) doc"
    unfolding contains_ignorecase_def contains_match_def
    using build_me_a_instance by blast
  then have "filter (\<lambda>ph. contains_match ph doc) generic_phrases \<noteq> []"
    by (auto simp: filter_empty_conv generic_phrases_def)
  with none show "fst (validate w (init p))" "warnings (snd (validate w (init p))) \<noteq> []"
    using validate_loaded [of w "init p" doc] read by (simp_all add: init_def)
qed

lemma open_read_build: "open_read example_world (py_str ''build.md'') = Contents build_doc"
  by (simp add: example_world_def py_str_def)

lemma build_doc_missing: "missing_sections build_doc = []"
  by (simp add: missing_sections_def build_doc_def good_doc_def re_eval)

lemma build_doc_phrase: "contains_ignorecase (py_str ''Build me a'') build_doc"
proof -
  have "sublist (py_str ''BUILD Me a'') build_doc"
    unfolding build_doc_def by (simp add: py_str_def sublist_code)
  moreover have "map ascii_lower (py_str ''BUILD Me a'') = map ascii_lower (py_str ''Build me a'')"
    by (simp add: char_defs)
  ultimately show ?thesis unfolding contains_ignorecase_def by blast
qed

theorem valid_iff_no_errors_witness:
  "open_read example_world (py_str ''build.md'') = Contents build_doc \<and>
   contains_ignorecase (py_str ''Build me a'') build_doc \<and>
   missing_sections build_doc = [] \<and>
   fst (validate example_world (init (py_str ''build.md''))) \<and>
   errors (snd (validate example_world (init (py_str ''build.md'')))) = [] \<and>
   warnings (snd (validate example_world (init (py_str ''build.md'')))) \<noteq> []"
proof -
  have "\<forall>(section_name, pattern) \<in> set REQUIRED_SECTIONS. contains_match pattern build_doc"
    using build_doc_missing by (auto simp: missing_sections_def filter_empty_conv)
  then show ?thesis
    using valid_iff_no_errors [of example_world "init (py_str ''build.md'')" "py_str ''build.md''" build_doc]
      open_read_build build_doc_phrase build_doc_missing
    by blast
qed

text \<open>
  C3, as the code has it. The specificity check appends one warning for each of the four
  generic phrase patterns that the document contains, all with the same text: between
  none and four warnings, not at most one.
\<close>

theorem specificity_one_warning_per_phrase:
  "check_specificity v =
     v\<lparr>warnings := warnings v @
        replicate (length (filter (\<lambda>phrase. contains_match phrase (content v)) generic_phrases))
          generic_phrase_warning\<rparr> \<and>
   length (filter (\<lambda>phrase. contains_match phrase (content v)) generic_phrases) \<le> 4"
proof -
  have "length (filter (\<lambda>phrase. contains_match phrase (content v)) generic_phrases) \<le>
      length generic_phrases"
    by (rule length_filter_le)
  then show ?thesis
    by (simp add: check_specificity_def check_phrases_loop_eq contains_match_code
        generic_phrases_def)
qed

text \<open>
  A document with two of the generic phrases gets two warnings from the specificity
  check.
\<close>

theorem specificity_at_most_one_counterexample:
  "warnings (check_specificity
      \<lparr>filepath = py_str ''two.md'', content = py_str ''Build me a tool. Fix this.'',
        errors = [], warnings = []\<rparr>) =
     [generic_phrase_warning, generic_phrase_warning]"
  by (simp add: check_specificity_def check_phrases_loop_eq re_eval)

text \<open>
  C10. A heading pattern is looked for anywhere in the document. Whenever some part of
  the document, at any position, is an instance of the pattern of a required section
  (\<open>##\<close>, white space, the section name in any case), no error for that section is
  reported: in the middle of a line, inside a code fence, or as the tail of a deeper
  heading such as \<open>### Context\<close>.
\<close>

theorem heading_pattern_matches_anywhere:
  assumes "(section_name, pattern) \<in> set REQUIRED_SECTIONS"
    and "open_read w p = Contents (before @ heading @ after)"
    and "re_fullmatch pattern heading"
  shows "missing_section_message section_name \<notin> set (errors (snd (validate w (init p))))"
proof
  let ?doc = "before @ heading @ after"
  assume "missing_section_message section_name \<in> set (errors (snd (validate w (init p))))"
  then have "missing_section_message section_name \<in>
      set (map missing_section_message (missing_sections ?doc))"
    using validate_loaded [of w "init p" ?doc] assms(2) by (simp add: init_def)
  then obtain n pat where np: "(n, pat) \<in> set REQUIRED_SECTIONS" "\<not> contains_match pat ?doc"
    and eq: "missing_section_message n = missing_section_message section_name"
    by (auto simp: missing_sections_def)
  from distinct_section_messages
  have inj: "inj_on (missing_section_message \<circ> fst) (set REQUIRED_SECTIONS)"
    by (simp add: distinct_map)
  from eq have "(missing_section_message \<circ> fst) (n, pat) =
      (missing_section_message \<circ> fst) (section_name, pattern)"
    by simp
  from inj_onD [OF inj this np(1) assms(1)] have "(n, pat) = (section_name, pattern)" .
  moreover have "contains_match pattern ?doc"
    unfolding contains_match_def using assms(3) by blast
  ultimately show False using np(2) by simp
qed

lemma open_read_nested: "open_read example_world (py_str ''nested.md'') = Contents nested_doc"
  by (simp add: example_world_def py_str_def)

theorem heading_pattern_matches_anywhere_witness:
  "open_read example_world (py_str ''nested.md'') =
     Contents ((code_fence @ [10] @ py_str ''see #'') @ py_str ''## conTEXT'' @
       (py_str '' here'' @ [10] @ code_fence)) \<and>
   py_str ''Missing required section: Context'' \<notin>
     set (errors (snd (validate example_world (init (py_str ''nested.md'')))))"
proof -
  have doc: "nested_doc =
      (code_fence @ [10] @ py_str ''see #'') @ py_str ''## conTEXT'' @
      (py_str '' here'' @ [10] @ code_fence)"
    by (simp add: nested_doc_def py_str_def)
  have sec: "(py_str ''context'', lits ''##'' @ [SPACE_PLUS] @ lits ''Context'') \<in> set REQUIRED_SECTIONS"
    by (simp add: REQUIRED_SECTIONS_def)
  have inst: "re_fullmatch (lits ''##'' @ [SPACE_PLUS] @ lits ''Context'') (py_str ''## conTEXT'')"
    by (simp add: lits_def py_str_def)
      (intro fm_literal fm_space1 fm_empty; simp add: char_defs)
  have msg: "missing_section_message (py_str ''context'') = py_str ''Missing required section: Context''"
    by (simp add: missing_section_message_def title_def replace_def char_defs)
  show ?thesis
    using heading_pattern_matches_anywhere [OF sec _ inst, of example_world "py_str ''nested.md''"
        "code_fence @ [10] @ py_str ''see #''" "py_str '' here'' @ [10] @ code_fence"]
      open_read_nested
    unfolding doc msg by simp
qed

section \<open>Repeated calls\<close>

lemma validate_filepath: "filepath (snd (validate w v)) = filepath v"
proof (cases "open_read w (filepath v)")
  case (Contents doc)
  then show ?thesis using validate_loaded [of w v doc] by simp
qed (simp_all add: validate_def load_file_def)

lemma validate_findings_append:
  "errors (snd (validate w v)) = errors v @ errors (snd (validate w (init (filepath v)))) \<and>
   warnings (snd (validate w v)) = warnings v @ warnings (snd (validate w (init (filepath v))))"
proof (cases "open_read w (filepath v)")
  case (Contents doc)
  then show ?thesis
    using validate_loaded [of w v doc] validate_loaded [of w "init (filepath v)" doc]
    by (simp add: init_def)
qed (simp_all add: validate_def load_file_def init_def)

lemma validate_context:
  "validate example_world (init (py_str ''context.md'')) =
     (False,
      \<lparr>filepath = py_str ''context.md'', content = context_only_doc,
        errors =
          [py_str ''Missing required section: Task'',
           py_str ''Missing required section: Requirements'',
           py_str ''Missing required section: Validation'',
           py_str ''Missing required section: Output Format'',
           py_str ''Missing required section: Security''],
        warnings = [no_examples_warning]\<rparr>)"
proof -
  have "validate example_world (init (py_str ''context.md'')) =
     (False,
      \<lparr>filepath = py_str ''context.md'', content = context_only_doc,
        errors = map missing_section_message (missing_sections context_only_doc),
        warnings = [no_examples_warning]\<rparr>)"
    using validate_loaded [of example_world "init (py_str ''context.md'')" context_only_doc]
    by (simp add: init_def open_read_context context_only_doc_phrases context_only_doc_fence
        context_only_doc_missing)
  then show ?thesis
    by (simp add: context_only_doc_missing missing_section_message_def title_def replace_def
        char_defs)
qed

text \<open>
  C7, as the code has it. Validating an unmodified path on a fresh validator gives the
  same result every time: the findings depend only on what reading the path gives (and,
  for the not-found message, on the string of the path). Calling \<open>validate\<close> a second
  time on the same validator does not give the same lists: the lists are never reset,
  so the second call appends the same findings again.
\<close>

theorem validate_repeatable_on_fresh_validator:
  "(open_read w' p = open_read w p \<and> Path_str w' p = Path_str w p \<longrightarrow>
      validate w' (init p) = validate w (init p)) \<and>
   errors (snd (validate w (snd (validate w (init p))))) =
     errors (snd (validate w (init p))) @ errors (snd (validate w (init p))) \<and>
   warnings (snd (validate w (snd (validate w (init p))))) =
     warnings (snd (validate w (init p))) @ warnings (snd (validate w (init p)))"
proof (intro conjI impI)
  assume "open_read w' p = open_read w p \<and> Path_str w' p = Path_str w p"
  then show "validate w' (init p) = validate w (init p)"
    by (cases "open_read w p") (simp_all add: validate_def load_file_def init_def)
next
  have "filepath (snd (validate w (init p))) = p"
    by (simp add: validate_filepath init_def)
  with validate_findings_append [of w "snd (validate w (init p))"]
  show "errors (snd (validate w (snd (validate w (init p))))) =
      errors (snd (validate w (init p))) @ errors (snd (validate w (init p)))"
    and "warnings (snd (validate w (snd (validate w (init p))))) =
      warnings (snd (validate w (init p))) @ warnings (snd (validate w (init p)))"
    by simp_all
qed

theorem validate_repeatable_on_fresh_validator_witness:
  "open_read example_world_later (py_str ''context.md'') =
     open_read example_world (py_str ''context.md'') \<and>
   Path_str example_world_later (py_str ''context.md'') =
     Path_str example_world (py_str ''context.md'') \<and>
   open_read example_world_later (py_str ''good.md'') \<noteq>
     open_read example_world (py_str ''good.md'') \<and>
   validate example_world_later (init (py_str ''context.md'')) =
     validate example_world (init (py_str ''context.md''))"
proof -
  have same: "open_read example_world_later (py_str ''context.md'') =
      open_read example_world (py_str ''context.md'') \<and>
    Path_str example_world_later (py_str ''context.md'') =
      Path_str example_world (py_str ''context.md'')"
    by (simp add: example_world_later_def py_str_def)
  have other: "open_read example_world_later (py_str ''good.md'') \<noteq>
      open_read example_world (py_str ''good.md'')"
    by (simp add: example_world_later_def open_read_good)
  from validate_repeatable_on_fresh_validator
    [of example_world_later "py_str ''context.md''" example_world] same other
  show ?thesis by blast
qed

text \<open>
  Two calls of \<open>validate\<close> on one validator for the file with the single heading: five
  errors and one warning after the first call, ten errors and two warnings after the
  second.
\<close>

theorem validate_twice_counterexample:
  "length (errors (snd (validate example_world (init (py_str ''context.md''))))) = 5 \<and>
   length (errors (snd (validate example_world
      (snd (validate example_world (init (py_str ''context.md''))))))) = 10 \<and>
   length (warnings (snd (validate example_world (init (py_str ''context.md''))))) = 1 \<and>
   length (warnings (snd (validate example_world
      (snd (validate example_world (init (py_str ''context.md''))))))) = 2"
proof -
  let ?v = "snd (validate example_world (init (py_str ''context.md'')))"
  have "filepath ?v = py_str ''context.md''"
    by (simp add: validate_filepath init_def)
  with validate_findings_append [of example_world ?v] show ?thesis
    by (simp add: validate_context)
qed

section \<open>Properties of the entry point\<close>

lemma print_each_eq:
  "print_each w ls out =
     (out @ takeWhile (stdout_accepts w) ls, list_all (stdout_accepts w) ls)"
  by (induction ls arbitrary: out) (simp_all add: print_def)

lemma takeWhile_append_if:
  "takeWhile P (xs @ ys) = (if list_all P xs then xs @ takeWhile P ys else takeWhile P xs)"
  by (induction xs) simp_all

lemma print_report_eq:
  "print_report w v out =
     (out @ takeWhile (stdout_accepts w) (report_lines w v),
      if list_all (stdout_accepts w) (report_lines w v) then Some (errors v = []) else None)"
proof (cases "errors v = []"; cases "warnings v = []")
  assume "errors v = []" "warnings v = []"
  then show ?thesis
    by (simp add: print_report_def report_lines_def print_each_eq print_def)
next
  assume "errors v = []" "warnings v \<noteq> []"
  then show ?thesis
    by (simp add: print_report_def report_lines_def print_each_eq takeWhile_append_if)
next
  assume "errors v \<noteq> []" "warnings v = []"
  then show ?thesis
    by (simp add: print_report_def report_lines_def print_each_eq takeWhile_append_if)
next
  assume "errors v \<noteq> []" "warnings v \<noteq> []"
  then show ?thesis
    by (simp add: print_report_def report_lines_def print_each_eq takeWhile_append_if)
qed



lemma main_first_path_only: "main w (prog # path # rest) = main w [prog, path]"
  by (simp add: main_def)


lemma example_world_accepts: "stdout_accepts example_world = (\<lambda>s. True)"
  by (simp add: example_world_def)







text \<open>
  C9, at the failing input. With two path arguments, a compliant file and then a file
  that lacks five sections, the program prints the report of the first file only and
  exits with status 0: the second path is never validated.
\<close>

theorem main_reads_first_path_only:
  "main example_world [py_str ''prompt-validator.py'', py_str ''good.md'', py_str ''context.md''] =
     ([[10] @ banner, py_str ''Validating: good.md'', banner @ [10],
       [8218, 250, 214] @ py_str '' All checks passed!''], 0) \<and>
   \<not> fst (validate example_world (init (py_str ''context.md'')))"
proof -
  have "validate example_world (init (py_str ''good.md'')) =
     (True, \<lparr>filepath = py_str ''good.md'', content = good_doc, errors = [], warnings = []\<rparr>)"
    using validate_loaded [of example_world "init (py_str ''good.md'')" good_doc]
    by (simp add: init_def open_read_good good_doc_missing good_doc_phrases good_doc_fence)
  moreover have "Path_name example_world (py_str ''good.md'') = py_str ''good.md''"
    by (simp add: example_world_def)
  ultimately have report: "main example_world
      [py_str ''prompt-validator.py'', py_str ''good.md'', py_str ''context.md''] =
     ([[10] @ banner, py_str ''Validating: '' @ py_str ''good.md'', banner @ [10],
       [8218, 250, 214] @ py_str '' All checks passed!''], 0)"
    by (simp add: main_def print_report_eq report_lines_def example_world_accepts)
  have "\<not> fst (validate example_world (init (py_str ''context.md'')))"
    by (simp add: validate_context)
  moreover have "py_str ''Validating: '' @ py_str ''good.md'' = py_str ''Validating: good.md''"
    by (simp add: py_str_def)
  ultimately show ?thesis using report by simp
qed

end
